theory Spec2Isabelle
  imports Complex_Main
begin

section \<open>Strings\<close>

text \<open>
  A JavaScript string is a sequence of UTF-16 code units. Each code unit is modelled by
  its numeric value, so that \<open>length\<close> counts what \<^verbatim>\<open>String.length\<close> and the
  regular expressions of the source count. \<open>js\<close> turns an ASCII literal into such a
  sequence.
\<close>

type_synonym jsstring = "nat list"

definition js :: "string \<Rightarrow> jsstring" where
  "js s = map of_char s"

text \<open>
  \<^verbatim>\<open>String.prototype.trim\<close> removes the ECMAScript WhiteSpace and LineTerminator code
  points from both ends: TAB, LF, VT, FF, CR, SP, NBSP, U+1680, U+2000..U+200A, U+2028,
  U+2029, U+202F, U+205F, U+3000 and U+FEFF.
\<close>

definition isWhiteSpace :: "nat \<Rightarrow> bool" where
  "isWhiteSpace c =
     (c = 9 \<or> c = 10 \<or> c = 11 \<or> c = 12 \<or> c = 13 \<or> c = 32 \<or> c = 160 \<or> c = 5760
      \<or> (8192 \<le> c \<and> c \<le> 8202) \<or> c = 8232 \<or> c = 8233 \<or> c = 8239 \<or> c = 8287
      \<or> c = 12288 \<or> c = 65279)"

definition trim :: "jsstring \<Rightarrow> jsstring" where
  "trim s = rev (dropWhile isWhiteSpace (rev (dropWhile isWhiteSpace s)))"

text \<open>\<^verbatim>\<open>s.startsWith(p)\<close> and \<^verbatim>\<open>s.includes(c)\<close> for a one-character \<open>c\<close>.\<close>

definition startsWith :: "jsstring \<Rightarrow> jsstring \<Rightarrow> bool" where
  "startsWith s p = (take (length p) s = p)"

definition includesChar :: "jsstring \<Rightarrow> nat \<Rightarrow> bool" where
  "includesChar s c = (c \<in> set s)"

text \<open>
  \<^verbatim>\<open>s.split(d)\<close> for a one-character separator: the pieces between the separators,
  always at least one piece (\<^verbatim>\<open>''.split(';')\<close> is \<^verbatim>\<open>['']\<close>).
\<close>

fun split_on :: "nat \<Rightarrow> jsstring \<Rightarrow> jsstring list" where
  "split_on d [] = [[]]"
| "split_on d (c # cs) =
     (if c = d then [] # split_on d cs
      else (case split_on d cs of
              p # ps \<Rightarrow> (c # p) # ps
            | [] \<Rightarrow> [[c]]))"

text \<open>
  An optional string read in a boolean position (\<^verbatim>\<open>if (x)\<close>, \<^verbatim>\<open>!!x\<close>, \<^verbatim>\<open>x || y\<close>):
  \<^verbatim>\<open>undefined\<close>, \<^verbatim>\<open>null\<close> and the empty string are falsy.
\<close>

definition truthy :: "jsstring option \<Rightarrow> bool" where
  "truthy x = (case x of None \<Rightarrow> False | Some s \<Rightarrow> s \<noteq> [])"

section \<open>Identifier Resolver\<close>

text \<open>The character class \<^verbatim>\<open>[A-Za-z0-9_-]\<close>.\<close>

definition isIdChar :: "nat \<Rightarrow> bool" where
  "isIdChar c =
     ((65 \<le> c \<and> c \<le> 90) \<or> (97 \<le> c \<and> c \<le> 122) \<or> (48 \<le> c \<and> c \<le> 57)
      \<or> c = 95 \<or> c = 45)"

text \<open>
  \<^verbatim>\<open>/^[A-Za-z0-9_-]{11}$/.test(s)\<close>. Without the \<^verbatim>\<open>m\<close> flag, \<^verbatim>\<open>$\<close> matches at the
  end of the input only.
\<close>

definition isVideoId :: "jsstring \<Rightarrow> bool" where
  "isVideoId s = (length s = 11 \<and> list_all isIdChar s)"

text \<open>
  A match attempt at the start of \<open>s\<close> of a literal \<open>p\<close> followed by the group
  \<^verbatim>\<open>([A-Za-z0-9_-]{11})\<close>; the result is the group. Nothing is required of what
  follows the eleven characters.
\<close>

definition idAfter :: "jsstring \<Rightarrow> jsstring \<Rightarrow> jsstring option" where
  "idAfter p s =
     (if startsWith s p \<and> isVideoId (take 11 (drop (length p) s))
      then Some (take 11 (drop (length p) s)) else None)"

text \<open>
  \<^verbatim>\<open>s.match(/\/(embed|shorts|v)\/([A-Za-z0-9_-]{11})/)\<close>, group 2 of the leftmost match:
  at each start position the alternatives are tried in their order.
\<close>

definition pathMatchAt :: "jsstring \<Rightarrow> jsstring option" where
  "pathMatchAt s =
     (case idAfter (js ''/embed/'') s of
        Some i \<Rightarrow> Some i
      | None \<Rightarrow>
          (case idAfter (js ''/shorts/'') s of
             Some i \<Rightarrow> Some i
           | None \<Rightarrow> idAfter (js ''/v/'') s))"

fun pathMatch :: "jsstring \<Rightarrow> jsstring option" where
  "pathMatch [] = None"
| "pathMatch (c # cs) =
     (case pathMatchAt (c # cs) of
        Some i \<Rightarrow> Some i
      | None \<Rightarrow> pathMatch cs)"

text \<open>\<^verbatim>\<open>s.match(/[?&]v=([A-Za-z0-9_-]{11})/)\<close>, group 1 of the leftmost match.\<close>

definition queryMatchAt :: "jsstring \<Rightarrow> jsstring option" where
  "queryMatchAt s =
     (case s of
        [] \<Rightarrow> None
      | c # cs \<Rightarrow> if c = 63 \<or> c = 38 then idAfter (js ''v='') cs else None)"

fun queryMatch :: "jsstring \<Rightarrow> jsstring option" where
  "queryMatch [] = None"
| "queryMatch (c # cs) =
     (case queryMatchAt (c # cs) of
        Some i \<Rightarrow> Some i
      | None \<Rightarrow> queryMatch cs)"

text \<open>
  What the source reads of a parsed \<^verbatim>\<open>URL\<close> object: the host name, the path and the
  query parameters in their order (\<^verbatim>\<open>searchParams.get\<close> returns the first value of a
  name).
\<close>

record URL =
  hostname :: jsstring
  pathname :: jsstring
  searchParams :: "(jsstring \<times> jsstring) list"

text \<open>
  The body of the \<^verbatim>\<open>try\<close> block of \<^verbatim>\<open>extractVideoId\<close> once \<^verbatim>\<open>new URL(input)\<close> has
  returned. \<^verbatim>\<open>url.pathname.slice(1).split('/')[0]\<close> is the text between the first
  character of the path and the next slash.
\<close>

definition extractFromURL :: "URL \<Rightarrow> jsstring option" where
  "extractFromURL u =
     (let id = takeWhile (\<lambda>c. c \<noteq> 47) (drop 1 (pathname u));
          v = map_of (searchParams u) (js ''v'')
      in if hostname u = js ''youtu.be'' \<and> id \<noteq> [] \<and> isVideoId id then Some id
         else if truthy v \<and> (case v of None \<Rightarrow> False | Some w \<Rightarrow> isVideoId w) then v
         else pathMatch (pathname u))"

text \<open>
  \<^verbatim>\<open>extractVideoId\<close>. The platform's URL parser is a parameter: \<open>newURL input\<close> is
  \<open>None\<close> where \<^verbatim>\<open>new URL(input)\<close> throws, which is the only way into the \<^verbatim>\<open>catch\<close>
  block. A URL that parses and holds no identifier does not reach the fallback pattern.
\<close>

definition extractVideoId :: "(jsstring \<Rightarrow> URL option) \<Rightarrow> jsstring \<Rightarrow> jsstring option" where
  "extractVideoId newURL input =
     (if input = [] then None
      else if isVideoId (trim input) then Some (trim input)
      else (case newURL input of
              Some u \<Rightarrow> extractFromURL u
            | None \<Rightarrow> queryMatch input))"

definition parseVideoId :: "(jsstring \<Rightarrow> URL option) \<Rightarrow> jsstring \<Rightarrow> jsstring option" where
  "parseVideoId newURL input = extractVideoId newURL input"

section \<open>Data model\<close>

text \<open>
  The interfaces of the source as records. Numbers that the platform sends as integers
  (itag, bitrate, width, height) are \<open>int\<close>; a score is a \<open>real\<close> and is computed
  exactly: the rounding of the doubles of JavaScript is not modelled. An optional field
  is an \<open>option\<close>. \<^verbatim>\<open>bitrate\<close>, \<^verbatim>\<open>formats\<close> and
  \<^verbatim>\<open>adaptiveFormats\<close> are declared mandatory and read with \<^verbatim>\<open>??\<close>, so they are
  optional here as well.

  \<^verbatim>\<open>ExtractedStream\<close> and \<^verbatim>\<open>YouTubeExtractionResult\<close> come first because they share
  field names with the input records: below, an unqualified \<open>url\<close>, \<open>itag\<close>,
  \<open>mimeType\<close>, \<open>bitrate\<close>, \<open>quality\<close>, \<open>title\<close> or \<open>videoId\<close> is a field of the
  input records, and the output fields are written with their record's name. The
  stream's \<^verbatim>\<open>url\<close> is written from \<^verbatim>\<open>f.url!\<close>, which checks nothing at run time,
  so it is optional in the model.
\<close>

datatype jsnumber = NaN | Num int

record ExtractedStream =
  url :: "jsstring option"
  quality :: jsstring
  mimeType :: jsstring
  itag :: int
  hasAudio :: bool
  hasVideo :: bool
  bitrate :: int

record YouTubeExtractionResult =
  streams :: "ExtractedStream list"
  bestStream :: "ExtractedStream option"
  videoId :: jsstring
  title :: "jsstring option"
  durationSeconds :: "jsnumber option"

record InnertubeFormat =
  itag :: int
  url :: "jsstring option"
  signatureCipher :: "jsstring option"
  mimeType :: jsstring
  bitrate :: "int option"
  width :: "int option"
  height :: "int option"
  contentLength :: "jsstring option"
  quality :: jsstring
  qualityLabel :: "jsstring option"
  audioQuality :: "jsstring option"
  audioSampleRate :: "jsstring option"
  audioChannels :: "int option"
  approxDurationMs :: "jsstring option"
  lastModified :: "jsstring option"
  projectionType :: "jsstring option"

record InnertubeStreamingData =
  formats :: "InnertubeFormat list option"
  adaptiveFormats :: "InnertubeFormat list option"
  expiresInSeconds :: "jsstring option"

record VideoDetails =
  videoId :: jsstring
  title :: jsstring
  lengthSeconds :: jsstring
  isLive :: "bool option"
  isLiveDvr :: "bool option"

record PlayabilityStatus =
  status :: jsstring
  reason :: "jsstring option"

record InnertubePlayerResponse =
  streamingData :: "InnertubeStreamingData option"
  videoDetails :: "VideoDetails option"
  playabilityStatus :: "PlayabilityStatus option"

section \<open>Constants\<close>

datatype ClientContext =
  ANDROID_CLIENT_CONTEXT | IOS_CLIENT_CONTEXT | TVHTML5_EMBEDDED_CONTEXT

definition PREFERRED_MUXED_ITAGS :: "int list" where
  "PREFERRED_MUXED_ITAGS = [22, 59, 78, 135, 134]"

section \<open>Format Classifier\<close>

text \<open>
  \<^verbatim>\<open>s.replace(/codecs=["']?/i, '')\<close>: the leftmost occurrence of \<^verbatim>\<open>codecs=\<close> in any
  letter case, with the quote that follows it if there is one, is removed. Under the
  \<^verbatim>\<open>i\<close> flag without \<^verbatim>\<open>u\<close>, a code unit from 128 on never matches an ASCII letter, so
  two code units match when they are equal or are the two cases of one ASCII letter.
\<close>

definition upperAscii :: "nat \<Rightarrow> nat" where
  "upperAscii c = (if 97 \<le> c \<and> c \<le> 122 then c - 32 else c)"

definition startsWithCI :: "jsstring \<Rightarrow> jsstring \<Rightarrow> bool" where
  "startsWithCI s p = (map upperAscii (take (length p) s) = map upperAscii p)"

definition isQuote :: "nat \<Rightarrow> bool" where
  "isQuote c = (c = 34 \<or> c = 39)"

fun stripCodecsPrefix :: "jsstring \<Rightarrow> jsstring" where
  "stripCodecsPrefix [] = []"
| "stripCodecsPrefix (c # cs) =
     (if startsWithCI (c # cs) (js ''codecs='')
      then (case drop 7 (c # cs) of
              [] \<Rightarrow> []
            | q # r \<Rightarrow> if isQuote q then r else q # r)
      else c # stripCodecsPrefix cs)"

text \<open>\<^verbatim>\<open>s.replace(/["']$/, '')\<close>: a quote at the very end is removed.\<close>

definition stripQuoteEnd :: "jsstring \<Rightarrow> jsstring" where
  "stripQuoteEnd s = (if s \<noteq> [] \<and> isQuote (last s) then butlast s else s)"

record MimeParts =
  container :: jsstring
  codecs :: jsstring

text \<open>
  \<^verbatim>\<open>parseMimeType\<close>. The destructuring \<^verbatim>\<open>[base, codecsPart] = mimeType.split(';')\<close>
  takes the first two pieces; \<^verbatim>\<open>split\<close> always returns one piece at least.
\<close>

definition parseMimeType :: "jsstring \<Rightarrow> MimeParts" where
  "parseMimeType m =
     (let parts = split_on 59 m;
          base = (case parts of [] \<Rightarrow> [] | b # _ \<Rightarrow> b);
          codecsPart = (case parts of _ # c # _ \<Rightarrow> Some c | _ \<Rightarrow> None)
      in \<lparr>container = trim base,
          codecs = (case codecsPart of
                      None \<Rightarrow> []
                    | Some c \<Rightarrow>
                        if c \<noteq> [] then trim (stripQuoteEnd (stripCodecsPrefix c)) else [])\<rparr>)"

definition isMuxedFormat :: "InnertubeFormat \<Rightarrow> bool" where
  "isMuxedFormat format =
     (let codecs = codecs (parseMimeType (mimeType format))
      in includesChar codecs 44 \<or> (truthy (audioQuality format) \<and> truthy (qualityLabel format)))"

definition isVideoMp4 :: "InnertubeFormat \<Rightarrow> bool" where
  "isVideoMp4 format = startsWith (mimeType format) (js ''video/mp4'')"

definition formatQualityLabel :: "InnertubeFormat \<Rightarrow> jsstring" where
  "formatQualityLabel format =
     (case qualityLabel format of
        Some l \<Rightarrow> if l \<noteq> [] then l
                  else if quality format \<noteq> [] then quality format else js ''unknown''
      | None \<Rightarrow> if quality format \<noteq> [] then quality format else js ''unknown'')"

text \<open>
  The object literal that \<^verbatim>\<open>extract\<close> maps over the retained formats and that
  \<^verbatim>\<open>pickBestStream\<close> builds from the best one; the two are the same expression.
\<close>

definition toStream :: "InnertubeFormat \<Rightarrow> ExtractedStream" where
  "toStream f =
     \<lparr>ExtractedStream.url = url f,
      ExtractedStream.quality = formatQualityLabel f,
      ExtractedStream.mimeType = mimeType f,
      ExtractedStream.itag = itag f,
      hasAudio = (truthy (audioQuality f) \<or> isMuxedFormat f),
      hasVideo = (truthy (qualityLabel f) \<or> startsWith (mimeType f) (js ''video/'')),
      ExtractedStream.bitrate = (case bitrate f of None \<Rightarrow> 0 | Some b \<Rightarrow> b)\<rparr>"

section \<open>Stream Scorer\<close>

text \<open>\<^verbatim>\<open>Array.prototype.indexOf\<close>: the first index holding the value, or \<open>-1\<close>.\<close>

fun indexOf :: "int list \<Rightarrow> int \<Rightarrow> int" where
  "indexOf [] x = - 1"
| "indexOf (y # ys) x =
     (if y = x then 0
      else (let i = indexOf ys x in if i = - 1 then - 1 else i + 1))"

definition scoreFormat :: "InnertubeFormat \<Rightarrow> real" where
  "scoreFormat format =
     (let preferredIndex = indexOf PREFERRED_MUXED_ITAGS (itag format);
          itagBonus = (if preferredIndex \<noteq> - 1
                       then (int (length PREFERRED_MUXED_ITAGS) - preferredIndex) * 10000
                       else 0);
          h = (case height format of None \<Rightarrow> 0 | Some v \<Rightarrow> v);
          heightScore = min h 720 * 10;
          bitrateScore =
            real_of_int (min (case bitrate format of None \<Rightarrow> 0 | Some b \<Rightarrow> b) 3000000) / 1000
      in real_of_int itagBonus + real_of_int heightScore + bitrateScore)"

text \<open>
  \<^verbatim>\<open>[...pool].sort((a, b) => scoreFormat(b) - scoreFormat(a))\<close>. The sort of an array is
  stable and the comparator is a consistent one, so the outcome is that of inserting
  each element in front of the elements which came after it in the array and which the
  comparator does not put before it.
\<close>

fun insertBy :: "('a \<Rightarrow> 'a \<Rightarrow> real) \<Rightarrow> 'a \<Rightarrow> 'a list \<Rightarrow> 'a list" where
  "insertBy cmp x [] = [x]"
| "insertBy cmp x (y # ys) =
     (if cmp x y \<le> 0 then x # y # ys else y # insertBy cmp x ys)"

definition sortBy :: "('a \<Rightarrow> 'a \<Rightarrow> real) \<Rightarrow> 'a list \<Rightarrow> 'a list" where
  "sortBy cmp xs = foldr (insertBy cmp) xs []"

text \<open>
  \<^verbatim>\<open>pickBestStream\<close> in two steps: \<open>pickBest\<close> is the format the source binds to
  \<^verbatim>\<open>best\<close>, and \<open>pickBestStream\<close> the stream it builds from it. \<^verbatim>\<open>sorted[0]\<close> of an
  empty array cannot arise, since the pool of a non-empty list is not empty.
\<close>

definition pickBest :: "InnertubeFormat list \<Rightarrow> InnertubeFormat option" where
  "pickBest fs =
     (if length fs = 0 then None
      else (let mp4Formats = filter isVideoMp4 fs;
                pool = (if length mp4Formats > 0 then mp4Formats else fs);
                sorted = sortBy (\<lambda>a b. scoreFormat b - scoreFormat a) pool
            in case sorted of [] \<Rightarrow> None | best # _ \<Rightarrow> Some best))"

definition pickBestStream :: "InnertubeFormat list \<Rightarrow> ExtractedStream option" where
  "pickBestStream fs = map_option toStream (pickBest fs)"

section \<open>Client Profile Fetcher\<close>

text \<open>
  The three profiles of \<^verbatim>\<open>extract\<close>, in their order. The identity context of a
  profile (the field \<^verbatim>\<open>context\<close>, here \<open>clientContext\<close>) is one of the three constant
  objects of the source.
\<close>

record Client =
  name :: jsstring
  clientContext :: ClientContext
  userAgent :: jsstring

definition clients :: "Client list" where
  "clients =
     [\<lparr>name = js ''ANDROID'', clientContext = ANDROID_CLIENT_CONTEXT,
       userAgent = js ''com.google.android.youtube/19.09.37 (Linux; U; Android 11) gzip''\<rparr>,
      \<lparr>name = js ''IOS'', clientContext = IOS_CLIENT_CONTEXT,
       userAgent =
         js ''com.google.ios.youtube/19.09.3 (iPhone14,3; U; CPU iPhone OS 15_6 like Mac OS X)''\<rparr>,
      \<lparr>name = js ''TVHTML5_EMBEDDED'', clientContext = TVHTML5_EMBEDDED_CONTEXT,
       userAgent = js ''Mozilla/5.0 (SMART-TV; Linux; Tizen 6.0)''\<rparr>]"

text \<open>
  The network is a parameter. For a video identifier, an identity context and a user
  agent it says how the one request of \<^verbatim>\<open>fetchPlayerResponse\<close> ends: aborted by the
  timer, failed with another error (a body that is not JSON is one), or answered, with
  \<^verbatim>\<open>response.ok\<close> and the parsed body (\<open>None\<close> for the JSON value \<^verbatim>\<open>null\<close>).
\<close>

datatype FetchOutcome =
  AbortError | OtherError | Answered bool "InnertubePlayerResponse option"

type_synonym network = "jsstring \<Rightarrow> ClientContext \<Rightarrow> jsstring \<Rightarrow> FetchOutcome"

definition fetchPlayerResponse ::
  "network \<Rightarrow> jsstring \<Rightarrow> ClientContext \<Rightarrow> jsstring \<Rightarrow> InnertubePlayerResponse option" where
  "fetchPlayerResponse net vid ctx ua =
     (case net vid ctx ua of
        Answered ok data \<Rightarrow> if \<not> ok then None else data
      | AbortError \<Rightarrow> None
      | OtherError \<Rightarrow> None)"

section \<open>Extraction Orchestrator\<close>

text \<open>The two loops of \<^verbatim>\<open>parseFormats\<close>, each pushing onto the array built so far.\<close>

fun pushDirect :: "InnertubeFormat list \<Rightarrow> InnertubeFormat list \<Rightarrow> InnertubeFormat list" where
  "pushDirect acc [] = acc"
| "pushDirect acc (f # fs) = pushDirect (if truthy (url f) then acc @ [f] else acc) fs"

fun pushDirectMuxed ::
  "InnertubeFormat list \<Rightarrow> InnertubeFormat list \<Rightarrow> InnertubeFormat list" where
  "pushDirectMuxed acc [] = acc"
| "pushDirectMuxed acc (f # fs) =
     pushDirectMuxed (if truthy (url f) \<and> isMuxedFormat f then acc @ [f] else acc) fs"

definition parseFormats :: "InnertubePlayerResponse \<Rightarrow> InnertubeFormat list" where
  "parseFormats playerResponse =
     (case streamingData playerResponse of
        None \<Rightarrow> []
      | Some sd \<Rightarrow>
          pushDirectMuxed
            (pushDirect [] (case formats sd of None \<Rightarrow> [] | Some fs \<Rightarrow> fs))
            (case adaptiveFormats sd of None \<Rightarrow> [] | Some fs \<Rightarrow> fs))"

text \<open>
  \<^verbatim>\<open>parseInt(s, 10)\<close>: leading white space is skipped, a sign is read, and the longest
  run of decimal digits that follows is the value; with no digit the result is NaN.
\<close>

definition isDigit :: "nat \<Rightarrow> bool" where
  "isDigit c = (48 \<le> c \<and> c \<le> 57)"

definition digitsValue :: "jsstring \<Rightarrow> int" where
  "digitsValue ds = foldl (\<lambda>acc c. acc * 10 + (int c - 48)) 0 ds"

definition parseInt10 :: "jsstring \<Rightarrow> jsnumber" where
  "parseInt10 s =
     (let t = dropWhile isWhiteSpace s;
          negative = (case t of [] \<Rightarrow> False | c # _ \<Rightarrow> c = 45);
          body = (case t of [] \<Rightarrow> [] | c # cs \<Rightarrow> if c = 43 \<or> c = 45 then cs else c # cs);
          ds = takeWhile isDigit body
      in if ds = [] then NaN
         else Num ((if negative then - 1 else 1) * digitsValue ds))"

text \<open>
  The loop over the profiles. Its result is the names of the profiles for which a
  request was made, in the order of the requests, and the two variables the loop
  leaves behind, \<^verbatim>\<open>bestFormats\<close> and \<^verbatim>\<open>playerResponse\<close>. \<open>later\<close> is what
  \<^verbatim>\<open>continue\<close> and the fall through the end of the body lead to.
\<close>

fun tryClients ::
  "network \<Rightarrow> jsstring \<Rightarrow> Client list \<Rightarrow>
     jsstring list \<times> InnertubeFormat list \<times> InnertubePlayerResponse option" where
  "tryClients net vid [] = ([], [], None)"
| "tryClients net vid (client # rest) =
     (let later = (case tryClients net vid rest of (tried, r) \<Rightarrow> (name client # tried, r))
      in case fetchPlayerResponse net vid (clientContext client) (userAgent client) of
           None \<Rightarrow> later
         | Some resp \<Rightarrow>
             (let st = map_option status (playabilityStatus resp)
              in if st = Some (js ''UNPLAYABLE'') \<or> st = Some (js ''LOGIN_REQUIRED'')
                 then later
                 else (let formats = parseFormats resp
                       in if length formats > 0 then ([name client], formats, Some resp)
                          else later)))"

text \<open>
  \<^verbatim>\<open>YouTubeExtractor.extract\<close>: the names of the profiles requested and the result. The
  calls of the logger change neither and are left out. The name carries its class, as
  \<^verbatim>\<open>extract\<close> alone is a command of the proof language.
\<close>

definition YouTubeExtractor_extract ::
  "(jsstring \<Rightarrow> URL option) \<Rightarrow> network \<Rightarrow> jsstring \<Rightarrow>
     jsstring list \<times> YouTubeExtractionResult option" where
  "YouTubeExtractor_extract newURL net videoIdOrUrl =
     (case extractVideoId newURL videoIdOrUrl of
        None \<Rightarrow> ([], None)
      | Some vid \<Rightarrow>
          if vid = [] then ([], None)
          else (case tryClients net vid clients of
                  (tried, bestFormats, playerResponse) \<Rightarrow>
                    if length bestFormats = 0 then (tried, None)
                    else (let details = (case playerResponse of
                                           None \<Rightarrow> None
                                         | Some r \<Rightarrow> videoDetails r)
                          in (tried,
                              Some \<lparr>streams = map toStream bestFormats,
                                    bestStream = pickBestStream bestFormats,
                                    YouTubeExtractionResult.videoId = vid,
                                    YouTubeExtractionResult.title = map_option title details,
                                    durationSeconds =
                                      (case details of
                                         None \<Rightarrow> None
                                       | Some d \<Rightarrow>
                                           if lengthSeconds d \<noteq> []
                                           then Some (parseInt10 (lengthSeconds d))
                                           else None)\<rparr>))))"

definition getBestStreamUrl ::
  "(jsstring \<Rightarrow> URL option) \<Rightarrow> network \<Rightarrow> jsstring \<Rightarrow> jsstring option" where
  "getBestStreamUrl newURL net videoIdOrUrl =
     (case snd (YouTubeExtractor_extract newURL net videoIdOrUrl) of
        None \<Rightarrow> None
      | Some result \<Rightarrow>
          (case bestStream result of
             None \<Rightarrow> None
           | Some b \<Rightarrow> ExtractedStream.url b))"

section \<open>Vocabulary of the properties\<close>

text \<open>
  A format with nothing but its mandatory fields, from which the concrete formats of the
  examples are made by record update.
\<close>

definition blankFormat :: InnertubeFormat where
  "blankFormat =
     \<lparr>itag = 0, url = None, signatureCipher = None, mimeType = [], bitrate = None,
      width = None, height = None, contentLength = None, quality = [],
      qualityLabel = None, audioQuality = None, audioSampleRate = None,
      audioChannels = None, approxDurationMs = None, lastModified = None,
      projectionType = None\<rparr>"




text \<open>
  The pool that a selection draws from: the formats of the primary kind when there is
  one, all formats otherwise. \<open>hasMp4Container\<close> says that the container of a format,
  as \<^verbatim>\<open>parseMimeType\<close> gives it, is \<^verbatim>\<open>video/mp4\<close>.
\<close>

definition selectionPool ::
  "(InnertubeFormat \<Rightarrow> bool) \<Rightarrow> InnertubeFormat list \<Rightarrow> InnertubeFormat list" where
  "selectionPool primary fs = (if filter primary fs \<noteq> [] then filter primary fs else fs)"


text \<open>
  The two collections of a response, empty when the response has no streaming data or
  the collection is missing, and what one profile attempt yields for the loop of
  \<^verbatim>\<open>extract\<close>: nothing when the request fails or the playability status is
  \<^verbatim>\<open>UNPLAYABLE\<close> or \<^verbatim>\<open>LOGIN_REQUIRED\<close>, the retained formats of the response
  otherwise.
\<close>

definition muxedCollection :: "InnertubePlayerResponse \<Rightarrow> InnertubeFormat list" where
  "muxedCollection resp =
     (case streamingData resp of
        None \<Rightarrow> []
      | Some sd \<Rightarrow> (case formats sd of None \<Rightarrow> [] | Some fs \<Rightarrow> fs))"

definition adaptiveCollection :: "InnertubePlayerResponse \<Rightarrow> InnertubeFormat list" where
  "adaptiveCollection resp =
     (case streamingData resp of
        None \<Rightarrow> []
      | Some sd \<Rightarrow> (case adaptiveFormats sd of None \<Rightarrow> [] | Some fs \<Rightarrow> fs))"

definition attempt :: "network \<Rightarrow> jsstring \<Rightarrow> Client \<Rightarrow> InnertubeFormat list" where
  "attempt net vid c =
     (case fetchPlayerResponse net vid (clientContext c) (userAgent c) of
        None \<Rightarrow> []
      | Some resp \<Rightarrow>
          if map_option status (playabilityStatus resp) = Some (js ''UNPLAYABLE'')
             \<or> map_option status (playabilityStatus resp) = Some (js ''LOGIN_REQUIRED'')
          then [] else parseFormats resp)"

text \<open>
  A network for the examples: the first profile is refused with \<^verbatim>\<open>LOGIN_REQUIRED\<close>,
  the second is answered with one muxed MP4 format that has a direct URL and one format
  that has a signature cipher only, and the request of the third is aborted.
\<close>

definition exampleFormat :: InnertubeFormat where
  "exampleFormat =
     blankFormat\<lparr>itag := 22, url := Some (js ''https://rr1.example/videoplayback?itag=22''),
       mimeType := js ''video/mp4; codecs=\"avc1.64001F, mp4a.40.2\"'',
       bitrate := Some 1500000, height := Some 720, quality := js ''hd720'',
       qualityLabel := Some (js ''720p''), audioQuality := Some (js ''AUDIO_QUALITY_MEDIUM'')\<rparr>"

definition exampleResponse :: InnertubePlayerResponse where
  "exampleResponse =
     \<lparr>streamingData =
        Some \<lparr>formats = Some [exampleFormat, blankFormat\<lparr>itag := 18,
                 signatureCipher := Some (js ''s=abc'')\<rparr>],
              adaptiveFormats = None, expiresInSeconds = None\<rparr>,
      videoDetails = None, playabilityStatus = None\<rparr>"

definition exampleNetwork :: network where
  "exampleNetwork vid ctx ua =
     (case ctx of
        ANDROID_CLIENT_CONTEXT \<Rightarrow>
          Answered True
            (Some \<lparr>streamingData = None, videoDetails = None,
                   playabilityStatus =
                     Some \<lparr>status = js ''LOGIN_REQUIRED'', reason = None\<rparr>\<rparr>)
      | IOS_CLIENT_CONTEXT \<Rightarrow> Answered True (Some exampleResponse)
      | TVHTML5_EMBEDDED_CONTEXT \<Rightarrow> AbortError)"

section \<open>Identifier Resolver: canonical identifiers\<close>

lemma idChar_not_ws: "isIdChar c \<Longrightarrow> \<not> isWhiteSpace c"
  by (auto simp: isIdChar_def isWhiteSpace_def)

lemma trim_isVideoId:
  assumes "isVideoId s"
  shows "trim s = s"
proof -
  from assms have ne: "s \<noteq> []" and ids: "list_all isIdChar s"
    by (auto simp: isVideoId_def)
  from ne ids have "\<not> isWhiteSpace (hd s)"
    by (cases s) (auto simp: idChar_not_ws)
  with ne have front: "dropWhile isWhiteSpace s = s"
    by (cases s) auto
  from ne ids have "\<not> isWhiteSpace (last s)"
    by (simp add: idChar_not_ws list_all_iff)
  with ne have "dropWhile isWhiteSpace (rev s) = rev s"
    by (cases "rev s") (auto simp: hd_rev[symmetric])
  with front show ?thesis
    by (simp add: trim_def)
qed

lemma idAfter_isVideoId: "idAfter p s = Some i \<Longrightarrow> isVideoId i"
  by (auto simp: idAfter_def split: if_splits)

lemma pathMatch_isVideoId: "pathMatch s = Some i \<Longrightarrow> isVideoId i"
  by (induction s) (auto simp: pathMatchAt_def split: option.splits dest: idAfter_isVideoId)

lemma queryMatch_isVideoId: "queryMatch s = Some i \<Longrightarrow> isVideoId i"
  by (induction s)
    (auto simp: queryMatchAt_def split: option.splits if_splits dest: idAfter_isVideoId)

lemma extractFromURL_isVideoId: "extractFromURL u = Some i \<Longrightarrow> isVideoId i"
  by (auto simp: extractFromURL_def Let_def split: if_splits option.splits
      dest: pathMatch_isVideoId)

lemma extractVideoId_isVideoId: "extractVideoId newURL s = Some i \<Longrightarrow> isVideoId i"
  by (auto simp: extractVideoId_def split: if_splits option.splits
      dest: extractFromURL_isVideoId queryMatch_isVideoId)

lemma extractVideoId_canonical:
  "isVideoId (trim s) \<Longrightarrow> extractVideoId newURL s = Some (trim s)"
  by (auto simp: extractVideoId_def trim_def isVideoId_def)

text \<open>
  Claim C9. For every string that is a canonical identifier once trimmed (eleven
  characters, each a letter, a digit, an underscore or a hyphen), \<open>parseVideoId\<close>
  returns that identifier, whatever the URL parser does; and \<open>parseVideoId\<close> applied to
  any identifier it has returned returns the same identifier.
\<close>

theorem parseVideoId_canonical_idempotent:
  "(isVideoId (trim s) \<longrightarrow> parseVideoId newURL s = Some (trim s)) \<and>
   (parseVideoId newURL s = Some y \<longrightarrow> parseVideoId newURL y = Some y)"
proof (intro conjI impI)
  assume "isVideoId (trim s)"
  then show "parseVideoId newURL s = Some (trim s)"
    by (simp add: parseVideoId_def extractVideoId_canonical)
next
  assume "parseVideoId newURL s = Some y"
  then have "isVideoId y"
    by (simp add: parseVideoId_def extractVideoId_isVideoId)
  then have "isVideoId (trim y)" and "trim y = y"
    by (simp_all add: trim_isVideoId)
  then show "parseVideoId newURL y = Some y"
    using extractVideoId_canonical[of y newURL] by (simp add: parseVideoId_def)
qed

theorem parseVideoId_canonical_idempotent_witness:
  "isVideoId (trim (js '' dQw4w9WgXcQ '')) \<and>
   parseVideoId (\<lambda>_. None) (js '' dQw4w9WgXcQ '') = Some (js ''dQw4w9WgXcQ'') \<and>
   parseVideoId (\<lambda>_. None) (js ''dQw4w9WgXcQ'') = Some (js ''dQw4w9WgXcQ'')"
proof -
  have t: "trim (js '' dQw4w9WgXcQ '') = js ''dQw4w9WgXcQ''"
    by (simp add: trim_def js_def isWhiteSpace_def)
  have v: "isVideoId (js ''dQw4w9WgXcQ'')"
    by (simp add: isVideoId_def js_def isIdChar_def)
  from t v
    parseVideoId_canonical_idempotent
      [of "js '' dQw4w9WgXcQ ''" "\<lambda>_. None" "js ''dQw4w9WgXcQ''"]
  show ?thesis by simp
qed

section \<open>Stream Scorer: the formula\<close>








section \<open>Stream Scorer: the order it gives\<close>

text \<open>
  Claim C1. A format whose itag is in the preference list is to score strictly higher
  than any format whose itag is not, whatever their heights and bitrates. The code
  does not achieve this: the smallest bonus is 10000, and the other two terms reach
  \<open>720 * 10 + 3000000 / 1000 = 10200\<close>. Itag 134, the last of the list, with no height
  and a bitrate of 100000 scores 10100; the unlisted itag 137 with height 1080 and a
  bitrate of 4500000 scores 10200.
\<close>

theorem scoreFormat_bonus_overtaken:
  "itag (blankFormat\<lparr>itag := 134, bitrate := Some 100000\<rparr>) \<in> set PREFERRED_MUXED_ITAGS \<and>
   itag (blankFormat\<lparr>itag := 137, height := Some 1080, bitrate := Some 4500000\<rparr>)
     \<notin> set PREFERRED_MUXED_ITAGS \<and>
   scoreFormat (blankFormat\<lparr>itag := 134, bitrate := Some 100000\<rparr>) = 10100 \<and>
   scoreFormat (blankFormat\<lparr>itag := 137, height := Some 1080, bitrate := Some 4500000\<rparr>)
     = 10200 \<and>
   scoreFormat (blankFormat\<lparr>itag := 134, bitrate := Some 100000\<rparr>)
     < scoreFormat (blankFormat\<lparr>itag := 137, height := Some 1080, bitrate := Some 4500000\<rparr>)"
  by (simp add: scoreFormat_def PREFERRED_MUXED_ITAGS_def blankFormat_def)




section \<open>Identifier Resolver: segments that are too long\<close>

text \<open>
  The same segment of sixteen characters is rejected where it is the path of a short
  link and where it is the value of the \<^verbatim>\<open>v\<close> parameter: both branches test all of it.
\<close>

lemma extractFromURL_whole_segment_tested:
  "extractFromURL \<lparr>hostname = js ''youtu.be'', pathname = js ''/dQw4w9WgXcQextra'',
       searchParams = []\<rparr> = None \<and>
   extractFromURL \<lparr>hostname = js ''www.youtube.com'', pathname = js ''/watch'',
       searchParams = [(js ''v'', js ''dQw4w9WgXcQextra'')]\<rparr> = None"
  by (simp add: extractFromURL_def isVideoId_def js_def truthy_def pathMatchAt_def idAfter_def
      startsWith_def)

text \<open>
  Claim C2. An identifier segment that is not a canonical identifier is to be rejected
  in every supported URL shape. The short-link and the \<^verbatim>\<open>v=\<close> parameter branches test
  the whole segment; the pattern for \<^verbatim>\<open>embed/\<close>, \<^verbatim>\<open>shorts/\<close> and \<^verbatim>\<open>v/\<close> paths has no
  end, so of a segment of sixteen characters it returns the first eleven. The
  hypothesis is what the URL parser returns for this input.
\<close>

theorem parseVideoId_overlong_segment:
  "newURL (js ''https://www.youtube.com/embed/dQw4w9WgXcQextra'') =
     Some \<lparr>hostname = js ''www.youtube.com'', pathname = js ''/embed/dQw4w9WgXcQextra'',
           searchParams = []\<rparr> \<Longrightarrow>
   \<not> isVideoId (js ''dQw4w9WgXcQextra'') \<and>
   parseVideoId newURL (js ''https://www.youtube.com/embed/dQw4w9WgXcQextra'')
     = Some (js ''dQw4w9WgXcQ'')"
  by (simp add: parseVideoId_def extractVideoId_def extractFromURL_def isVideoId_def trim_def
      js_def isWhiteSpace_def truthy_def pathMatchAt_def idAfter_def startsWith_def isIdChar_def)

theorem parseVideoId_overlong_segment_witness:
  "\<not> isVideoId (js ''dQw4w9WgXcQextra'') \<and>
   parseVideoId
     (\<lambda>_. Some \<lparr>hostname = js ''www.youtube.com'', pathname = js ''/embed/dQw4w9WgXcQextra'',
           searchParams = []\<rparr>)
     (js ''https://www.youtube.com/embed/dQw4w9WgXcQextra'')
     = Some (js ''dQw4w9WgXcQ'')"
  using parseVideoId_overlong_segment
    [of "\<lambda>_. Some \<lparr>hostname = js ''www.youtube.com'',
           pathname = js ''/embed/dQw4w9WgXcQextra'', searchParams = []\<rparr>"]
  by simp

section \<open>Format Classifier\<close>






section \<open>Selection of the best stream\<close>

lemma sortBy_Cons: "sortBy cmp (x # xs) = insertBy cmp x (sortBy cmp xs)"
  by (simp add: sortBy_def)

lemma sortBy_head:
  fixes key :: "'a \<Rightarrow> real"
  assumes "pool \<noteq> []"
  shows "\<exists>b rest i. sortBy (\<lambda>x y. key y - key x) pool = b # rest \<and> i < length pool \<and>
           pool ! i = b \<and> (\<forall>g\<in>set pool. key g \<le> key b) \<and> (\<forall>j<i. key (pool ! j) < key b)"
  using assms
proof (induction pool)
  case Nil
  then show ?case by simp
next
  case (Cons x xs)
  show ?case
  proof (cases "xs = []")
    case True
    then have "sortBy (\<lambda>x y. key y - key x) (x # xs) = [x]"
      by (simp add: sortBy_def)
    then show ?thesis
      using True by (intro exI[of _ x] exI[of _ "[]"] exI[of _ 0]) simp
  next
    case False
    from Cons.IH[OF False] obtain b rest i where
      s: "sortBy (\<lambda>x y. key y - key x) xs = b # rest" and i: "i < length xs" "xs ! i = b"
      and mx: "\<forall>g\<in>set xs. key g \<le> key b" and first: "\<forall>j<i. key (xs ! j) < key b"
      by blast
    show ?thesis
    proof (cases "key b \<le> key x")
      case True
      then have "sortBy (\<lambda>x y. key y - key x) (x # xs) = x # b # rest"
        by (simp add: sortBy_Cons s)
      moreover have "\<forall>g\<in>set (x # xs). key g \<le> key x"
        using mx True by auto
      ultimately show ?thesis
        by (intro exI[of _ x] exI[of _ "b # rest"] exI[of _ 0]) simp
    next
      case False
      then have "sortBy (\<lambda>x y. key y - key x) (x # xs)
          = b # insertBy (\<lambda>x y. key y - key x) x rest"
        by (simp add: sortBy_Cons s)
      moreover have "\<forall>g\<in>set (x # xs). key g \<le> key b"
        using mx False by auto
      moreover have "\<forall>j<Suc i. key ((x # xs) ! j) < key b"
      proof (intro allI impI)
        fix j assume "j < Suc i"
        then show "key ((x # xs) ! j) < key b"
          using first False by (cases j) auto
      qed
      ultimately show ?thesis
        using i by (intro exI[of _ b] exI[of _ "insertBy (\<lambda>x y. key y - key x) x rest"]
            exI[of _ "Suc i"]) simp
    qed
  qed
qed

lemma selectionPool_nonempty: "fs \<noteq> [] \<Longrightarrow> selectionPool primary fs \<noteq> []"
  by (simp add: selectionPool_def)

lemma selectionPool_subset: "set (selectionPool primary fs) \<subseteq> set fs"
  by (auto simp: selectionPool_def)

lemma pickBest_sorted:
  "fs \<noteq> [] \<Longrightarrow>
   pickBest fs =
     (case sortBy (\<lambda>a b. scoreFormat b - scoreFormat a) (selectionPool isVideoMp4 fs) of
        [] \<Rightarrow> None | best # _ \<Rightarrow> Some best)"
  by (simp add: pickBest_def selectionPool_def Let_def)

lemma pickBest_first_maximum:
  assumes "fs \<noteq> []"
  shows "\<exists>best i. pickBest fs = Some best \<and>
           i < length (selectionPool isVideoMp4 fs) \<and>
           selectionPool isVideoMp4 fs ! i = best \<and>
           (\<forall>g\<in>set (selectionPool isVideoMp4 fs). scoreFormat g \<le> scoreFormat best) \<and>
           (\<forall>j<i. scoreFormat (selectionPool isVideoMp4 fs ! j) < scoreFormat best)"
proof -
  from sortBy_head[OF selectionPool_nonempty[OF assms], of scoreFormat isVideoMp4]
  obtain b rest i where
    "sortBy (\<lambda>x y. scoreFormat y - scoreFormat x) (selectionPool isVideoMp4 fs) = b # rest"
    "i < length (selectionPool isVideoMp4 fs)" "selectionPool isVideoMp4 fs ! i = b"
    "\<forall>g\<in>set (selectionPool isVideoMp4 fs). scoreFormat g \<le> scoreFormat b"
    "\<forall>j<i. scoreFormat (selectionPool isVideoMp4 fs ! j) < scoreFormat b"
    by blast
  then show ?thesis
    using assms by (intro exI[of _ b] exI[of _ i]) (simp add: pickBest_sorted)
qed




section \<open>Extraction Orchestrator\<close>

lemma pushDirect_filter: "pushDirect acc fs = acc @ filter (\<lambda>f. truthy (url f)) fs"
  by (induction fs arbitrary: acc) auto

lemma pushDirectMuxed_filter:
  "pushDirectMuxed acc fs = acc @ filter (\<lambda>f. truthy (url f) \<and> isMuxedFormat f) fs"
  by (induction fs arbitrary: acc) auto

lemma parseFormats_filter:
  "parseFormats resp =
     filter (\<lambda>f. truthy (url f)) (muxedCollection resp)
     @ filter (\<lambda>f. truthy (url f) \<and> isMuxedFormat f) (adaptiveCollection resp)"
  by (simp add: parseFormats_def muxedCollection_def adaptiveCollection_def
      pushDirect_filter pushDirectMuxed_filter split: option.splits)

lemma parseFormats_direct: "f \<in> set (parseFormats resp) \<Longrightarrow> truthy (url f)"
  by (auto simp: parseFormats_filter)

lemma tryClients_none:
  "(\<forall>c\<in>set cs. attempt net vid c = []) \<Longrightarrow> tryClients net vid cs = (map name cs, [], None)"
  by (induction cs) (auto simp: attempt_def Let_def split: option.splits if_splits)

lemma tryClients_first:
  "i < length cs \<Longrightarrow> attempt net vid (cs ! i) \<noteq> [] \<Longrightarrow>
   (\<forall>j<i. attempt net vid (cs ! j) = []) \<Longrightarrow>
   \<exists>resp. fetchPlayerResponse net vid (clientContext (cs ! i)) (userAgent (cs ! i)) = Some resp \<and>
          attempt net vid (cs ! i) = parseFormats resp \<and>
          tryClients net vid cs = (map name (take (Suc i) cs), parseFormats resp, Some resp)"
proof (induction cs arbitrary: i)
  case Nil
  then show ?case by simp
next
  case (Cons c cs)
  show ?case
  proof (cases i)
    case 0
    with Cons.prems show ?thesis
      by (auto simp: attempt_def Let_def split: option.splits if_splits)
  next
    case (Suc k)
    with Cons.prems have k: "k < length cs" "attempt net vid (cs ! k) \<noteq> []"
      and before: "\<forall>j<k. attempt net vid (cs ! j) = []" and c: "attempt net vid c = []"
      by auto
    from Cons.IH[OF k before] obtain resp where
      r: "fetchPlayerResponse net vid (clientContext (cs ! k)) (userAgent (cs ! k)) = Some resp"
        "attempt net vid (cs ! k) = parseFormats resp"
        "tryClients net vid cs = (map name (take (Suc k) cs), parseFormats resp, Some resp)"
      by blast
    from c r(3) have "tryClients net vid (c # cs)
        = (map name (take (Suc (Suc k)) (c # cs)), parseFormats resp, Some resp)"
      by (auto simp: attempt_def Let_def split: option.splits if_splits)
    with r Suc show ?thesis by simp
  qed
qed

lemma first_nonempty:
  "\<exists>c\<in>set cs. g c \<noteq> [] \<Longrightarrow> \<exists>i<length cs. g (cs ! i) \<noteq> [] \<and> (\<forall>j<i. g (cs ! j) = [])"
proof (induction cs)
  case Nil
  then show ?case by simp
next
  case (Cons c cs)
  show ?case
  proof (cases "g c = []")
    case False
    then show ?thesis by (intro exI[of _ 0]) simp
  next
    case True
    with Cons.prems have "\<exists>c\<in>set cs. g c \<noteq> []" by auto
    from Cons.IH[OF this] obtain i where
      i: "i < length cs" "g (cs ! i) \<noteq> []" "\<forall>j<i. g (cs ! j) = []" by blast
    have "\<forall>j<Suc i. g ((c # cs) ! j) = []"
    proof (intro allI impI)
      fix j assume "j < Suc i"
      then show "g ((c # cs) ! j) = []" using True i(3) by (cases j) auto
    qed
    with i show ?thesis by (intro exI[of _ "Suc i"]) simp
  qed
qed

lemma extractVideoId_nonempty: "extractVideoId newURL s = Some vid \<Longrightarrow> vid \<noteq> []"
  by (auto dest: extractVideoId_isVideoId simp: isVideoId_def)

lemma extract_unresolved:
  "extractVideoId newURL s = None \<Longrightarrow> YouTubeExtractor_extract newURL net s = ([], None)"
  by (simp add: YouTubeExtractor_extract_def)

lemma extract_exhausted:
  "extractVideoId newURL s = Some vid \<Longrightarrow> \<forall>c\<in>set clients. attempt net vid c = [] \<Longrightarrow>
   YouTubeExtractor_extract newURL net s = (map name clients, None)"
  by (simp add: YouTubeExtractor_extract_def tryClients_none extractVideoId_nonempty)

lemma extract_first:
  assumes "extractVideoId newURL s = Some vid" and "i < length clients"
    and "attempt net vid (clients ! i) \<noteq> []" and "\<forall>j<i. attempt net vid (clients ! j) = []"
  shows "\<exists>resp.
      fetchPlayerResponse net vid (clientContext (clients ! i)) (userAgent (clients ! i))
        = Some resp \<and>
      attempt net vid (clients ! i) = parseFormats resp \<and>
      YouTubeExtractor_extract newURL net s =
        (map name (take (Suc i) clients),
         Some \<lparr>streams = map toStream (parseFormats resp),
               bestStream = pickBestStream (parseFormats resp),
               YouTubeExtractionResult.videoId = vid,
               YouTubeExtractionResult.title = map_option title (videoDetails resp),
               durationSeconds =
                 (case videoDetails resp of
                    None \<Rightarrow> None
                  | Some d \<Rightarrow>
                      if lengthSeconds d \<noteq> [] then Some (parseInt10 (lengthSeconds d))
                      else None)\<rparr>)"
proof -
  from tryClients_first[OF assms(2-4)] obtain resp where
    r: "fetchPlayerResponse net vid (clientContext (clients ! i)) (userAgent (clients ! i))
        = Some resp"
      "attempt net vid (clients ! i) = parseFormats resp"
      "tryClients net vid clients = (map name (take (Suc i) clients), parseFormats resp, Some resp)"
    by blast
  from r(2) assms(3) have "parseFormats resp \<noteq> []" by simp
  with r(3) assms(1) have "YouTubeExtractor_extract newURL net s =
        (map name (take (Suc i) clients),
         Some \<lparr>streams = map toStream (parseFormats resp),
               bestStream = pickBestStream (parseFormats resp),
               YouTubeExtractionResult.videoId = vid,
               YouTubeExtractionResult.title = map_option title (videoDetails resp),
               durationSeconds =
                 (case videoDetails resp of
                    None \<Rightarrow> None
                  | Some d \<Rightarrow>
                      if lengthSeconds d \<noteq> [] then Some (parseInt10 (lengthSeconds d))
                      else None)\<rparr>)"
    by (simp add: YouTubeExtractor_extract_def extractVideoId_nonempty Let_def)
  with r(1,2) show ?thesis by blast
qed

lemma extract_Some:
  assumes "snd (YouTubeExtractor_extract newURL net s) = Some r"
  shows "\<exists>vid c resp. extractVideoId newURL s = Some vid \<and> c \<in> set clients \<and>
      fetchPlayerResponse net vid (clientContext c) (userAgent c) = Some resp \<and>
      parseFormats resp \<noteq> [] \<and>
      streams r = map toStream (parseFormats resp) \<and>
      bestStream r = pickBestStream (parseFormats resp)"
proof -
  from assms obtain vid where vid: "extractVideoId newURL s = Some vid"
    by (cases "extractVideoId newURL s") (auto simp: extract_unresolved)
  have "\<exists>c\<in>set clients. attempt net vid c \<noteq> []"
  proof (rule ccontr)
    assume "\<not> (\<exists>c\<in>set clients. attempt net vid c \<noteq> [])"
    then have "\<forall>c\<in>set clients. attempt net vid c = []" by simp
    from extract_exhausted[OF vid this] assms show False by simp
  qed
  from first_nonempty[OF this] obtain i where
    i: "i < length clients" "attempt net vid (clients ! i) \<noteq> []"
      "\<forall>j<i. attempt net vid (clients ! j) = []"
    by blast
  from extract_first[OF vid i] obtain resp where
    r: "fetchPlayerResponse net vid (clientContext (clients ! i)) (userAgent (clients ! i))
        = Some resp"
      "attempt net vid (clients ! i) = parseFormats resp"
      "YouTubeExtractor_extract newURL net s =
        (map name (take (Suc i) clients),
         Some \<lparr>streams = map toStream (parseFormats resp),
               bestStream = pickBestStream (parseFormats resp),
               YouTubeExtractionResult.videoId = vid,
               YouTubeExtractionResult.title = map_option title (videoDetails resp),
               durationSeconds =
                 (case videoDetails resp of
                    None \<Rightarrow> None
                  | Some d \<Rightarrow>
                      if lengthSeconds d \<noteq> [] then Some (parseInt10 (lengthSeconds d))
                      else None)\<rparr>)"
    by blast
  from r(3) assms have "streams r = map toStream (parseFormats resp)"
    "bestStream r = pickBestStream (parseFormats resp)"
    by auto
  moreover from i(1) have "clients ! i \<in> set clients" by simp
  moreover from r(2) i(2) have "parseFormats resp \<noteq> []" by simp
  ultimately show ?thesis using vid r(1) by blast
qed

lemma pickBest_member:
  assumes "fs \<noteq> []"
  shows "\<exists>best. pickBest fs = Some best \<and> best \<in> set fs"
proof -
  from pickBest_first_maximum[OF assms] obtain best i where
    b: "pickBest fs = Some best" "i < length (selectionPool isVideoMp4 fs)"
      "selectionPool isVideoMp4 fs ! i = best"
    by blast
  from b(2,3) have "best \<in> set (selectionPool isVideoMp4 fs)"
    by (auto simp: in_set_conv_nth)
  with selectionPool_subset[of isVideoMp4 fs] b(1) show ?thesis by blast
qed

lemma example_id: "extractVideoId (\<lambda>_. None) (js ''dQw4w9WgXcQ'') = Some (js ''dQw4w9WgXcQ'')"
  by (simp add: extractVideoId_def isVideoId_def trim_def js_def isWhiteSpace_def isIdChar_def)

lemma example_parseFormats: "parseFormats exampleResponse = [exampleFormat]"
  by (simp add: parseFormats_def exampleResponse_def exampleFormat_def blankFormat_def
      truthy_def js_def)

lemma example_status: "playabilityStatus exampleResponse = None"
  by (simp add: exampleResponse_def)

lemma example_details: "videoDetails exampleResponse = None"
  by (simp add: exampleResponse_def)

lemma example_tryClients:
  "tryClients exampleNetwork vid clients =
     ([js ''ANDROID'', js ''IOS''], [exampleFormat], Some exampleResponse)"
  by (simp add: clients_def fetchPlayerResponse_def exampleNetwork_def example_parseFormats
      example_status Let_def)

lemma example_extract:
  "YouTubeExtractor_extract (\<lambda>_. None) exampleNetwork (js ''dQw4w9WgXcQ'') =
      ([js ''ANDROID'', js ''IOS''],
       Some \<lparr>streams = [toStream exampleFormat], bestStream = pickBestStream [exampleFormat],
             YouTubeExtractionResult.videoId = js ''dQw4w9WgXcQ'',
             YouTubeExtractionResult.title = None, durationSeconds = None\<rparr>)"
  using extractVideoId_nonempty[OF example_id]
  by (simp add: YouTubeExtractor_extract_def example_id example_tryClients example_details)

lemma pickBestStream_single: "pickBestStream [f] = Some (toStream f)"
  by (simp add: pickBestStream_def pickBest_def sortBy_def)

lemma example_attempt0: "attempt exampleNetwork vid (clients ! 0) = []"
  by (simp add: attempt_def clients_def fetchPlayerResponse_def exampleNetwork_def js_def)

lemma example_attempt1: "attempt exampleNetwork vid (clients ! 1) = [exampleFormat]"
  by (simp add: attempt_def clients_def fetchPlayerResponse_def exampleNetwork_def
      example_parseFormats example_status)

text \<open>
  Claim C7. The formats retained from a response are the formats of its muxed
  collection that have a direct URL, in their order, followed by the formats of its
  adaptive collection that have a direct URL and are muxed, in their order. Every
  retained format has a direct URL, so a format with a signature cipher only is never
  retained. The stream list of a result is made of the retained formats of one response
  fetched for a profile, in the same order.
\<close>

theorem parseFormats_retained:
  "parseFormats resp =
     filter (\<lambda>f. truthy (url f)) (muxedCollection resp)
     @ filter (\<lambda>f. truthy (url f) \<and> isMuxedFormat f) (adaptiveCollection resp) \<and>
   (\<forall>f\<in>set (parseFormats resp). truthy (url f)) \<and>
   (snd (YouTubeExtractor_extract newURL net s) = Some r \<longrightarrow>
      (\<exists>vid c resp'. extractVideoId newURL s = Some vid \<and> c \<in> set clients \<and>
         fetchPlayerResponse net vid (clientContext c) (userAgent c) = Some resp' \<and>
         streams r = map toStream (parseFormats resp')))"
proof (intro conjI impI)
  show "parseFormats resp =
     filter (\<lambda>f. truthy (url f)) (muxedCollection resp)
     @ filter (\<lambda>f. truthy (url f) \<and> isMuxedFormat f) (adaptiveCollection resp)"
    by (rule parseFormats_filter)
  show "\<forall>f\<in>set (parseFormats resp). truthy (url f)"
    by (simp add: parseFormats_direct)
next
  assume "snd (YouTubeExtractor_extract newURL net s) = Some r"
  from extract_Some[OF this]
  show "\<exists>vid c resp'. extractVideoId newURL s = Some vid \<and> c \<in> set clients \<and>
         fetchPlayerResponse net vid (clientContext c) (userAgent c) = Some resp' \<and>
         streams r = map toStream (parseFormats resp')"
    by blast
qed

theorem parseFormats_retained_witness:
  "parseFormats exampleResponse = [exampleFormat] \<and>
   truthy (url exampleFormat) \<and>
   (\<exists>r. snd (YouTubeExtractor_extract (\<lambda>_. None) exampleNetwork (js ''dQw4w9WgXcQ'')) = Some r \<and>
      streams r = [toStream exampleFormat])"
proof -
  note e = example_extract
  from parseFormats_retained[of exampleResponse "\<lambda>_. None" exampleNetwork "js ''dQw4w9WgXcQ''"]
    example_parseFormats e
  show ?thesis
    by auto
qed

text \<open>
  Claim C8. \<^verbatim>\<open>extract\<close> returns no result exactly when the identifier is not resolved or
  no profile attempt yields a retained format, where a failed request and a status of
  \<^verbatim>\<open>UNPLAYABLE\<close> or \<^verbatim>\<open>LOGIN_REQUIRED\<close> yield none. Otherwise, with \<open>i\<close> the first
  profile whose attempt yields a retained format, requests are made for the profiles up
  to \<open>i\<close> and for no later one, and the streams, the best stream and the title of the
  result come from the response of profile \<open>i\<close>.
\<close>

theorem extract_first_success:
  "(snd (YouTubeExtractor_extract newURL net s) = None \<longleftrightarrow>
      extractVideoId newURL s = None
      \<or> (\<exists>vid. extractVideoId newURL s = Some vid \<and>
            (\<forall>c\<in>set clients. attempt net vid c = []))) \<and>
   (extractVideoId newURL s = Some vid \<and> i < length clients \<and>
    attempt net vid (clients ! i) \<noteq> [] \<and> (\<forall>j<i. attempt net vid (clients ! j) = []) \<longrightarrow>
      fst (YouTubeExtractor_extract newURL net s) = map name (take (Suc i) clients) \<and>
      (\<exists>r resp. snd (YouTubeExtractor_extract newURL net s) = Some r \<and>
         fetchPlayerResponse net vid (clientContext (clients ! i)) (userAgent (clients ! i))
           = Some resp \<and>
         streams r = map toStream (attempt net vid (clients ! i)) \<and>
         bestStream r = pickBestStream (attempt net vid (clients ! i)) \<and>
         YouTubeExtractionResult.videoId r = vid \<and>
         YouTubeExtractionResult.title r = map_option title (videoDetails resp)))"
proof (intro conjI impI iffI)
  assume none: "snd (YouTubeExtractor_extract newURL net s) = None"
  show "extractVideoId newURL s = None
      \<or> (\<exists>vid. extractVideoId newURL s = Some vid \<and>
            (\<forall>c\<in>set clients. attempt net vid c = []))"
  proof (cases "extractVideoId newURL s")
    case None
    then show ?thesis by simp
  next
    case (Some v)
    have "\<forall>c\<in>set clients. attempt net v c = []"
    proof (rule ccontr)
      assume "\<not> (\<forall>c\<in>set clients. attempt net v c = [])"
      then have "\<exists>c\<in>set clients. attempt net v c \<noteq> []" by simp
      from first_nonempty[OF this] obtain k where
        "k < length clients" "attempt net v (clients ! k) \<noteq> []"
        "\<forall>j<k. attempt net v (clients ! j) = []"
        by blast
      from extract_first[OF Some this] none show False by auto
    qed
    with Some show ?thesis by simp
  qed
next
  assume "extractVideoId newURL s = None
      \<or> (\<exists>vid. extractVideoId newURL s = Some vid \<and>
            (\<forall>c\<in>set clients. attempt net vid c = []))"
  then show "snd (YouTubeExtractor_extract newURL net s) = None"
    by (auto simp: extract_unresolved extract_exhausted)
next
  assume a: "extractVideoId newURL s = Some vid \<and> i < length clients \<and>
    attempt net vid (clients ! i) \<noteq> [] \<and> (\<forall>j<i. attempt net vid (clients ! j) = [])"
  then have "\<exists>resp.
      fetchPlayerResponse net vid (clientContext (clients ! i)) (userAgent (clients ! i))
        = Some resp \<and>
      attempt net vid (clients ! i) = parseFormats resp \<and>
      YouTubeExtractor_extract newURL net s =
        (map name (take (Suc i) clients),
         Some \<lparr>streams = map toStream (parseFormats resp),
               bestStream = pickBestStream (parseFormats resp),
               YouTubeExtractionResult.videoId = vid,
               YouTubeExtractionResult.title = map_option title (videoDetails resp),
               durationSeconds =
                 (case videoDetails resp of
                    None \<Rightarrow> None
                  | Some d \<Rightarrow>
                      if lengthSeconds d \<noteq> [] then Some (parseInt10 (lengthSeconds d))
                      else None)\<rparr>)"
    by (intro extract_first) simp_all
  then obtain resp where
    r: "fetchPlayerResponse net vid (clientContext (clients ! i)) (userAgent (clients ! i))
        = Some resp"
      "attempt net vid (clients ! i) = parseFormats resp"
      "YouTubeExtractor_extract newURL net s =
        (map name (take (Suc i) clients),
         Some \<lparr>streams = map toStream (parseFormats resp),
               bestStream = pickBestStream (parseFormats resp),
               YouTubeExtractionResult.videoId = vid,
               YouTubeExtractionResult.title = map_option title (videoDetails resp),
               durationSeconds =
                 (case videoDetails resp of
                    None \<Rightarrow> None
                  | Some d \<Rightarrow>
                      if lengthSeconds d \<noteq> [] then Some (parseInt10 (lengthSeconds d))
                      else None)\<rparr>)"
    by blast
  from r(3) show "fst (YouTubeExtractor_extract newURL net s) = map name (take (Suc i) clients)"
    by simp
  from r show "\<exists>r resp. snd (YouTubeExtractor_extract newURL net s) = Some r \<and>
         fetchPlayerResponse net vid (clientContext (clients ! i)) (userAgent (clients ! i))
           = Some resp \<and>
         streams r = map toStream (attempt net vid (clients ! i)) \<and>
         bestStream r = pickBestStream (attempt net vid (clients ! i)) \<and>
         YouTubeExtractionResult.videoId r = vid \<and>
         YouTubeExtractionResult.title r = map_option title (videoDetails resp)"
    by simp
qed

theorem extract_first_success_witness:
  "extractVideoId (\<lambda>_. None) (js ''dQw4w9WgXcQ'') = Some (js ''dQw4w9WgXcQ'') \<and>
   attempt exampleNetwork (js ''dQw4w9WgXcQ'') (clients ! 0) = [] \<and>
   attempt exampleNetwork (js ''dQw4w9WgXcQ'') (clients ! 1) = [exampleFormat] \<and>
   fst (YouTubeExtractor_extract (\<lambda>_. None) exampleNetwork (js ''dQw4w9WgXcQ''))
     = [js ''ANDROID'', js ''IOS''] \<and>
   (\<exists>r. snd (YouTubeExtractor_extract (\<lambda>_. None) exampleNetwork (js ''dQw4w9WgXcQ'')) = Some r \<and>
      streams r = [toStream exampleFormat] \<and>
      bestStream r = pickBestStream [exampleFormat])"
proof -
  have before: "\<forall>j<1. attempt exampleNetwork (js ''dQw4w9WgXcQ'') (clients ! j) = []"
    by (simp add: example_attempt0)
  have len: "1 < length clients"
    by (simp add: clients_def)
  have names: "map name (take (Suc 1) clients) = [js ''ANDROID'', js ''IOS'']"
    by (simp add: clients_def)
  from extract_first_success
    [of "\<lambda>_. None" exampleNetwork "js ''dQw4w9WgXcQ''" "js ''dQw4w9WgXcQ''" 1]
    example_id before len names example_attempt0 example_attempt1
  show ?thesis
    by auto
qed

text \<open>
  Claim C10. A result of \<^verbatim>\<open>extract\<close> has a non-empty stream list and a best stream, and
  the URL of the best stream, which is present and not empty, is the URL of an entry of
  the stream list.
\<close>

theorem extract_result_best:
  assumes "snd (YouTubeExtractor_extract newURL net s) = Some r"
  shows "streams r \<noteq> [] \<and> bestStream r \<noteq> None \<and>
         (\<exists>b e. bestStream r = Some b \<and> e \<in> set (streams r) \<and>
            ExtractedStream.url e = ExtractedStream.url b \<and> truthy (ExtractedStream.url b))"
proof -
  from extract_Some[OF assms] obtain resp where
    r: "parseFormats resp \<noteq> []" "streams r = map toStream (parseFormats resp)"
      "bestStream r = pickBestStream (parseFormats resp)"
    by blast
  from pickBest_member[OF r(1)] obtain best where
    b: "pickBest (parseFormats resp) = Some best" "best \<in> set (parseFormats resp)"
    by blast
  from b(1) r(3) have bs: "bestStream r = Some (toStream best)"
    by (simp add: pickBestStream_def)
  from b(2) r(2) have mem: "toStream best \<in> set (streams r)"
    by simp
  from b(2) have "truthy (ExtractedStream.url (toStream best))"
    by (simp add: toStream_def parseFormats_direct)
  with bs mem r(1,2) show ?thesis
    by auto
qed

theorem extract_result_best_witness:
  "(\<exists>r. snd (YouTubeExtractor_extract (\<lambda>_. None) exampleNetwork (js ''dQw4w9WgXcQ'')) = Some r \<and>
      streams r = [toStream exampleFormat] \<and>
      bestStream r = Some (toStream exampleFormat))"
proof -
  note e = example_extract
  from extract_result_best
    [of "\<lambda>_. None" exampleNetwork "js ''dQw4w9WgXcQ''"
      "\<lparr>streams = [toStream exampleFormat], bestStream = pickBestStream [exampleFormat],
             YouTubeExtractionResult.videoId = js ''dQw4w9WgXcQ'',
             YouTubeExtractionResult.title = None, durationSeconds = None\<rparr>"] e
  show ?thesis
    by (auto simp: pickBestStream_single)
qed

end
